theory Spec2Isabelle
  imports Complex_Main
begin

section \<open>Errors and Python values\<close>

text \<open>
  Every exception the modelled code can raise is a value of \<open>error\<close>; a call that may
  raise returns \<open>error + 'a\<close> with \<open>Inl\<close> for the exception.  Python floats are
  idealised as the reals throughout: masses, totals and ratios are exact.
\<close>

datatype error =
    EmptyDistributionError
  | DivisionByZeroError
  | ValueError
  | TypeError
  | NameError string

datatype pyval = PNone | PFloat real

section \<open>Distribution objects in an object store\<close>

text \<open>
  \<^verbatim>\<open>conditional.py\<close> imports the module \<^verbatim>\<open>Pmf\<close>, which is not among the sources.  A
  Distribution is an object with a mapping from value to mass and a display name.  The
  mapping is a Python dict: an association list whose keys are pairwise distinct.
  Objects live in a store and are handled by reference (the index of the object in the
  store), because the methods \<^verbatim>\<open>Remove\<close> and \<^verbatim>\<open>Normalize\<close> mutate the object they are
  called on.
\<close>

record 'a Distribution =
  dist_mapping :: "('a \<times> real) list"
  dist_name :: string

type_synonym ref = nat

type_synonym 'a heap = "'a Distribution list"

definition live :: "'a heap \<Rightarrow> ref \<Rightarrow> bool" where
  "live h r = (r < length h)"

definition dict_ok :: "'a heap \<Rightarrow> ref \<Rightarrow> bool" where
  "dict_ok h r = distinct (map fst (dist_mapping (h ! r)))"

definition set_mapping :: "'a heap \<Rightarrow> ref \<Rightarrow> ('a \<times> real) list \<Rightarrow> 'a heap" where
  "set_mapping h r m = h[r := (h ! r)\<lparr>dist_mapping := m\<rparr>]"

text \<open>
  Modelled from the spec: \<^verbatim>\<open>Values()\<close> of the missing module \<^verbatim>\<open>Pmf\<close>, the values
  present in the mapping.
\<close>

definition Values :: "'a heap \<Rightarrow> ref \<Rightarrow> 'a list" where
  "Values h r = map fst (dist_mapping (h ! r))"

text \<open>
  Modelled from the spec: \<^verbatim>\<open>Prob(value)\<close> of the missing module \<^verbatim>\<open>Pmf\<close>, the mass
  associated with the value, or 0.0 if it is absent.
\<close>

definition Prob :: "'a heap \<Rightarrow> ref \<Rightarrow> 'a \<Rightarrow> real" where
  "Prob h r v = (case map_of (dist_mapping (h ! r)) v of None \<Rightarrow> 0 | Some p \<Rightarrow> p)"

text \<open>
  Modelled from the spec: \<^verbatim>\<open>Copy(name)\<close> of the missing module \<^verbatim>\<open>Pmf\<close>, a new
  Distribution (a new object, at the next free address) with an identical mapping and
  the given name.
\<close>

definition Copy :: "'a heap \<Rightarrow> ref \<Rightarrow> string \<Rightarrow> ref \<times> 'a heap" where
  "Copy h r nm =
     (length h, h @ [\<lparr>dist_mapping = dist_mapping (h ! r), dist_name = nm\<rparr>])"

text \<open>
  Modelled from the spec: \<^verbatim>\<open>Remove(value)\<close> of the missing module \<^verbatim>\<open>Pmf\<close>, which
  deletes the entry for the value if present and does nothing if it is absent.
\<close>

definition Remove :: "'a heap \<Rightarrow> ref \<Rightarrow> 'a \<Rightarrow> 'a heap" where
  "Remove h r v = set_mapping h r (filter (\<lambda>kp. fst kp \<noteq> v) (dist_mapping (h ! r)))"

text \<open>
  Modelled from the spec: the total mass of a Distribution of the missing module
  \<^verbatim>\<open>Pmf\<close>, the sum of the masses of its mapping.
\<close>

definition Total :: "'a heap \<Rightarrow> ref \<Rightarrow> real" where
  "Total h r = sum_list (map snd (dist_mapping (h ! r)))"

text \<open>
  Modelled from the spec: \<^verbatim>\<open>Normalize()\<close> of the missing module \<^verbatim>\<open>Pmf\<close>, which
  rescales every mass by \<open>1 / total_mass\<close> and fails if the total mass is 0.
\<close>

definition Normalize :: "'a heap \<Rightarrow> ref \<Rightarrow> (error + unit) \<times> 'a heap" where
  "Normalize h r =
     (let total = Total h r in
      if total = 0 then (Inl EmptyDistributionError, h)
      else (Inr (),
            set_mapping h r
              (map (\<lambda>kp. (fst kp, snd kp * (1 / total))) (dist_mapping (h ! r)))))"

section \<open>conditional.py\<close>

text \<open>
  \<^verbatim>\<open>def ConditionPmf(pmf, filter_func, name='conditional')\<close>: an omitted keyword
  argument is \<open>None\<close> here.  The copy is made first, then the values of the original
  are read, each value the predicate accepts is removed from the copy, and the copy is
  normalized.  An exception of \<^verbatim>\<open>Normalize\<close> propagates.
\<close>

definition ConditionPmf ::
  "'a heap \<Rightarrow> ref \<Rightarrow> ('a \<Rightarrow> bool) \<Rightarrow> string option \<Rightarrow> (error + ref) \<times> 'a heap" where
  "ConditionPmf h pmf filter_func name_arg =
     (let nm = (case name_arg of None \<Rightarrow> ''conditional'' | Some n \<Rightarrow> n);
          (cond_pmf, h1) = Copy h pmf nm;
          vals = filter filter_func (Values h1 pmf);
          h2 = fold (\<lambda>val hh. Remove hh cond_pmf val) vals h1
      in case Normalize h2 cond_pmf of
           (Inl e, h3) \<Rightarrow> (Inl e, h3)
         | (Inr u, h3) \<Rightarrow> (Inr cond_pmf, h3))"

text \<open>
  \<^verbatim>\<open>def ConditionOnWeeks(pmf, week=39, name='conditional')\<close>, with the local
  function \<^verbatim>\<open>filter_func(x) = x < week\<close>.
\<close>

definition ConditionOnWeeks ::
  "int heap \<Rightarrow> ref \<Rightarrow> int option \<Rightarrow> string option \<Rightarrow> (error + ref) \<times> int heap" where
  "ConditionOnWeeks h pmf week_arg name_arg =
     (let week = (case week_arg of None \<Rightarrow> 39 | Some w \<Rightarrow> w);
          nm = (case name_arg of None \<Rightarrow> ''conditional'' | Some n \<Rightarrow> n);
          filter_func = (\<lambda>x. x < week);
          cond = ConditionPmf h pmf filter_func (Some nm)
      in cond)"

text \<open>
  \<^verbatim>\<open>def RelativeRisk(first, others, week=38)\<close>.  The arguments are tables whose
  attribute \<^verbatim>\<open>pmf\<close> is a Distribution.  The module \<^verbatim>\<open>risk\<close> is not among the sources:
  \<^verbatim>\<open>risk.ComputeRelativeRisk\<close> is a parameter, called with the two conditioned
  Distributions; its result is dropped, and the bare \<^verbatim>\<open>return\<close> that follows returns
  \<^verbatim>\<open>None\<close>.  The call of \<^verbatim>\<open>myplot.Pmfs\<close> after the \<^verbatim>\<open>return\<close> is never reached.
\<close>

record table =
  table_pmf :: ref

definition RelativeRisk ::
  "(int heap \<Rightarrow> ref \<Rightarrow> ref \<Rightarrow> (error + pyval) \<times> int heap) \<Rightarrow>
   int heap \<Rightarrow> table \<Rightarrow> table \<Rightarrow> int option \<Rightarrow> (error + pyval) \<times> int heap" where
  "RelativeRisk ComputeRelativeRisk h first others week_arg =
     (let week = (case week_arg of None \<Rightarrow> 38 | Some w \<Rightarrow> w) in
      case ConditionOnWeeks h (table_pmf first) (Some week) (Some ''first babies'') of
        (Inl e, h1) \<Rightarrow> (Inl e, h1)
      | (Inr first_cond, h1) \<Rightarrow>
          (case ConditionOnWeeks h1 (table_pmf others) (Some week) (Some ''others'') of
             (Inl e, h2) \<Rightarrow> (Inl e, h2)
           | (Inr other_cond, h2) \<Rightarrow>
               (case ComputeRelativeRisk h2 first_cond other_cond of
                  (Inl e, h3) \<Rightarrow> (Inl e, h3)
                | (Inr v, h3) \<Rightarrow> (Inr PNone, h3))))"

text \<open>
  Modelled from the spec: the relative risk that the missing module \<^verbatim>\<open>risk\<close> is said
  to compute, the ratio \<open>first_cond.Prob(week) / other_cond.Prob(week)\<close>, with a
  zero denominator reported as an error.
\<close>

definition ratio_at :: "int \<Rightarrow> int heap \<Rightarrow> ref \<Rightarrow> ref \<Rightarrow> (error + pyval) \<times> int heap" where
  "ratio_at week h first_cond other_cond =
     (if Prob h other_cond week = 0 then (Inl DivisionByZeroError, h)
      else (Inr (PFloat (Prob h first_cond week / Prob h other_cond week)), h))"

section \<open>myplot.py\<close>

text \<open>
  Keyword arguments (\<^verbatim>\<open>**options\<close>) are a dict from option name to value.  The
  figure that \<^verbatim>\<open>pyplot\<close> draws on is the list of the drawing calls made so far.
\<close>

datatype optval = OStr string | ONum real

type_synonym kwargs = "(string \<times> optval) list"

datatype plot_cmd = Bar "real list" "real list" kwargs

text \<open>
  \<^verbatim>\<open>d.setdefault(key, val)\<close> and \<^verbatim>\<open>Underride(d, **options)\<close>: a key is added only
  if it is not in \<open>d\<close>; \<open>d = None\<close> starts from the empty dict.
\<close>

definition setdefault :: "kwargs \<Rightarrow> string \<Rightarrow> optval \<Rightarrow> kwargs" where
  "setdefault d key val = (case map_of d key of None \<Rightarrow> d @ [(key, val)] | Some v \<Rightarrow> d)"

definition Underride :: "kwargs option \<Rightarrow> kwargs \<Rightarrow> kwargs" where
  "Underride d options =
     (let d0 = (case d of None \<Rightarrow> [] | Some d' \<Rightarrow> d')
      in fold (\<lambda>kv dd. setdefault dd (fst kv) (snd kv)) options d0)"

text \<open>
  \<^verbatim>\<open>Diff(t) = [t[i+1] - t[i] for i in range(len(t)-1)]\<close>; for the empty sequence
  \<^verbatim>\<open>range(-1)\<close> is empty, as is \<open>[0..<0 - 1]\<close>.
\<close>

definition Diff :: "real list \<Rightarrow> real list" where
  "Diff t = map (\<lambda>i. t ! (i + 1) - t ! i) [0..<length t - 1]"

text \<open>The builtin \<^verbatim>\<open>min\<close> of a sequence raises \<^verbatim>\<open>ValueError\<close> on the empty one.\<close>

definition py_min :: "real list \<Rightarrow> error + real" where
  "py_min xs = (case xs of [] \<Rightarrow> Inl ValueError | x # rest \<Rightarrow> Inr (fold min rest x))"

text \<open>
  Name resolution.  A name is looked up among the locals of the running function, then
  among the names bound at the top level of the module, then among the builtins.  The
  names bound at the top level of \<^verbatim>\<open>myplot.py\<close> are its four imports, the class
  \<^verbatim>\<open>InfiniteList\<close> and its functions; the builtins listed are those the module
  mentions.
\<close>

datatype binding =
    BModule | BClass | BFunction | BObject
  | BSeq "real list" | BNum real | BDict kwargs

definition myplot_globals :: "(string \<times> binding) list" where
  "myplot_globals =
     [(''math'', BModule), (''matplotlib'', BModule), (''pyplot'', BModule), (''np'', BModule),
      (''InfiniteList'', BClass),
      (''Underride'', BFunction), (''Clf'', BFunction), (''Plot'', BFunction),
      (''Pmf'', BFunction), (''Pmfs'', BFunction), (''Hist'', BFunction),
      (''Hists'', BFunction), (''Shift'', BFunction), (''Diff'', BFunction),
      (''Cdf'', BFunction), (''Cdfs'', BFunction), (''Contour'', BFunction),
      (''Config'', BFunction), (''Show'', BFunction), (''Save'', BFunction),
      (''SaveFormat'', BFunction)]"

definition py_builtins :: "(string \<times> binding) list" where
  "py_builtins =
     [(''list'', BClass), (''min'', BFunction), (''range'', BFunction), (''len'', BFunction),
      (''enumerate'', BClass), (''zip'', BFunction), (''sorted'', BFunction),
      (''None'', BObject), (''True'', BObject), (''False'', BObject)]"

definition lookup_name :: "(string \<times> binding) list \<Rightarrow> string \<Rightarrow> error + binding" where
  "lookup_name locals nm =
     (case map_of locals nm of
        Some b \<Rightarrow> Inr b
      | None \<Rightarrow>
          (case map_of myplot_globals nm of
             Some b \<Rightarrow> Inr b
           | None \<Rightarrow>
               (case map_of py_builtins nm of
                  Some b \<Rightarrow> Inr b
                | None \<Rightarrow> Inl (NameError nm))))"

text \<open>
  \<^verbatim>\<open>def Hist(hist, **options)\<close>.  The object \<open>hist\<close> is a Hist or Pmf of the missing
  module: what its method \<^verbatim>\<open>Render()\<close> returns (or raises) and its name are fields.
  The call \<^verbatim>\<open>pyplot.bar(xs, fs, **bar_options)\<close> evaluates its arguments first, so the
  name \<^verbatim>\<open>bar_options\<close> is resolved before anything is drawn; a value that is not a
  mapping cannot follow \<^verbatim>\<open>**\<close>.
\<close>

record hist_obj =
  Render :: "error + (real list \<times> real list)"
  hist_name :: string

definition Hist :: "hist_obj \<Rightarrow> kwargs \<Rightarrow> plot_cmd list \<Rightarrow> (error + unit) \<times> plot_cmd list" where
  "Hist hist options fig =
     (case Render hist of
        Inl e \<Rightarrow> (Inl e, fig)
      | Inr (xs, fs) \<Rightarrow>
          (case py_min (Diff xs) of
             Inl e \<Rightarrow> (Inl e, fig)
           | Inr width \<Rightarrow>
               (let options' = Underride (Some options)
                      [(''label'', OStr (hist_name hist)), (''align'', OStr ''center''),
                       (''edgecolor'', OStr ''blue''), (''width'', ONum width)];
                    locals = [(''hist'', BObject), (''options'', BDict options'),
                              (''xs'', BSeq xs), (''fs'', BSeq fs), (''width'', BNum width)]
                in case lookup_name locals ''bar_options'' of
                     Inl e \<Rightarrow> (Inl e, fig)
                   | Inr (BDict bar_options) \<Rightarrow> (Inr (), fig @ [Bar xs fs bar_options])
                   | Inr other \<Rightarrow> (Inl TypeError, fig))))"

definition two_bars :: hist_obj where
  "two_bars = \<lparr>Render = Inr ([1, 2, 4], [3, 5, 2]), hist_name = ''hist''\<rparr>"

section \<open>Vocabulary of the properties\<close>

text \<open>
  The entries of a Distribution that a predicate does not accept, and their mass as
  seen through \<^verbatim>\<open>Values\<close> and \<^verbatim>\<open>Prob\<close>.
\<close>

definition surviving :: "'a heap \<Rightarrow> ref \<Rightarrow> ('a \<Rightarrow> bool) \<Rightarrow> ('a \<times> real) list" where
  "surviving h pmf f = filter (\<lambda>kp. \<not> f (fst kp)) (dist_mapping (h ! pmf))"

definition surviving_mass :: "'a heap \<Rightarrow> ref \<Rightarrow> ('a \<Rightarrow> bool) \<Rightarrow> real" where
  "surviving_mass h pmf f =
     sum_list (map (Prob h pmf) (filter (\<lambda>v. \<not> f v) (Values h pmf)))"

definition mass_sum :: "'a heap \<Rightarrow> ref \<Rightarrow> real" where
  "mass_sum h r = sum_list (map (Prob h r) (Values h r))"

section \<open>Example stores\<close>

definition weeks_heap :: "int heap" where
  "weeks_heap =
     [\<lparr>dist_mapping = [(35, 1/10), (36, 1/10), (37, 2/10), (38, 3/10), (39, 3/10)],
       dist_name = ''pmf''\<rparr>]"

definition zero_mass_heap :: "int heap" where
  "zero_mass_heap = [\<lparr>dist_mapping = [(1, 0), (2, 1)], dist_name = ''pmf''\<rparr>]"

definition is_two :: "int \<Rightarrow> bool" where
  "is_two x = (x = 2)"

definition risk_heap :: "int heap" where
  "risk_heap =
     [\<lparr>dist_mapping = [(38, 4/10), (39, 6/10)], dist_name = ''first''\<rparr>,
      \<lparr>dist_mapping = [(38, 5/10), (39, 5/10)], dist_name = ''other''\<rparr>]"

definition first_table :: table where
  "first_table = \<lparr>table_pmf = 0\<rparr>"

definition others_table :: table where
  "others_table = \<lparr>table_pmf = 1\<rparr>"

definition counts_heap :: "int heap" where
  "counts_heap = [\<lparr>dist_mapping = [(1, 2), (2, 6)], dist_name = ''counts''\<rparr>]"

definition risk_cond_heap :: "int heap" where
  "risk_cond_heap =
     risk_heap @
     [\<lparr>dist_mapping = [(38, 4/10), (39, 6/10)], dist_name = ''first babies''\<rparr>,
      \<lparr>dist_mapping = [(38, 5/10), (39, 5/10)], dist_name = ''others''\<rparr>]"

section \<open>The object store and the dict operations\<close>

lemma length_set_mapping: "length (set_mapping h r m) = length h"
  by (simp add: set_mapping_def)

lemma set_mapping_append:
  "set_mapping (h @ [D]) (length h) m = h @ [D\<lparr>dist_mapping := m\<rparr>]"
  by (simp add: set_mapping_def)

lemma Remove_append:
  "Remove (h @ [D]) (length h) v =
     h @ [D\<lparr>dist_mapping := filter (\<lambda>kp. fst kp \<noteq> v) (dist_mapping D)\<rparr>]"
  by (simp add: Remove_def set_mapping_append)

lemma fold_Remove_append:
  "fold (\<lambda>val hh. Remove hh (length h) val) vals (h @ [D]) =
     h @ [D\<lparr>dist_mapping := filter (\<lambda>kp. fst kp \<notin> set vals) (dist_mapping D)\<rparr>]"
proof (induction vals arbitrary: D)
  case Nil
  show ?case by simp
next
  case (Cons v vs)
  have "filter (\<lambda>kp. fst kp \<notin> set vs) (filter (\<lambda>kp. fst kp \<noteq> v) (dist_mapping D)) =
        filter (\<lambda>kp. fst kp \<notin> set (v # vs)) (dist_mapping D)"
    by (induction "dist_mapping D") (auto intro: filter_cong)
  then show ?case
    by (simp add: Remove_append Cons.IH)
qed

lemma filter_accepted_keys:
  "filter (\<lambda>kp. fst kp \<notin> set (filter f (map fst m))) m = filter (\<lambda>kp. \<not> f (fst kp)) m"
  by (rule filter_cong) auto

lemma Normalize_append:
  "Normalize (h @ [E]) (length h) =
      (if sum_list (map snd (dist_mapping E)) = 0 then (Inl EmptyDistributionError, h @ [E])
       else (Inr (), h @ [E\<lparr>dist_mapping :=
          map (\<lambda>kp. (fst kp, snd kp * (1 / sum_list (map snd (dist_mapping E)))))
            (dist_mapping E)\<rparr>]))"
  by (simp add: Normalize_def Total_def set_mapping_append Let_def)

lemma ConditionPmf_eq:
  assumes "live h pmf"
  shows "ConditionPmf h pmf f name_arg =
    (let nm = (case name_arg of None \<Rightarrow> ''conditional'' | Some n \<Rightarrow> n);
         m = surviving h pmf f;
         total = sum_list (map snd m)
     in if total = 0
        then (Inl EmptyDistributionError, h @ [\<lparr>dist_mapping = m, dist_name = nm\<rparr>])
        else (Inr (length h),
              h @ [\<lparr>dist_mapping = map (\<lambda>kp. (fst kp, snd kp * (1 / total))) m,
                     dist_name = nm\<rparr>]))"
proof -
  define nm where "nm = (case name_arg of None \<Rightarrow> ''conditional'' | Some n \<Rightarrow> n)"
  define D where "D = \<lparr>dist_mapping = dist_mapping (h ! pmf), dist_name = nm\<rparr>"
  from assms have lv: "pmf < length h" by (simp add: live_def)
  have cp: "Copy h pmf nm = (length h, h @ [D])"
    by (simp add: Copy_def D_def)
  have vals: "Values (h @ [D]) pmf = map fst (dist_mapping D)"
    using lv by (simp add: Values_def nth_append D_def)
  have fr: "fold (\<lambda>val hh. Remove hh (length h) val) (filter f (Values (h @ [D]) pmf)) (h @ [D]) =
        h @ [D\<lparr>dist_mapping := surviving h pmf f\<rparr>]"
    unfolding vals fold_Remove_append filter_accepted_keys
    by (simp add: surviving_def D_def)
  have "ConditionPmf h pmf f name_arg =
     (case Normalize (h @ [D\<lparr>dist_mapping := surviving h pmf f\<rparr>]) (length h) of
           (Inl e, h3) \<Rightarrow> (Inl e, h3)
         | (Inr u, h3) \<Rightarrow> (Inr (length h), h3))"
    unfolding ConditionPmf_def Let_def nm_def [symmetric] cp prod.case fr ..
  then show ?thesis
    unfolding Normalize_append Let_def nm_def [symmetric]
    by (simp add: D_def)
qed

lemma sum_map_of_keys:
  "distinct (map fst m) \<Longrightarrow>
   sum_list (map (\<lambda>v. case map_of m v of None \<Rightarrow> 0 | Some p \<Rightarrow> p) (filter g (map fst m))) =
   sum_list (map snd (filter (\<lambda>kp. g (fst kp)) m))" for m :: "('a \<times> real) list"
proof (induction m)
  case Nil
  show ?case by simp
next
  case (Cons kp m)
  obtain k p where kp: "kp = (k, p)" by (cases kp)
  from Cons.prems kp have nk: "k \<notin> fst ` set m" and dm: "distinct (map fst m)"
    by auto
  have "(case map_of (kp # m) v of None \<Rightarrow> 0 | Some p \<Rightarrow> p) =
        (case map_of m v of None \<Rightarrow> 0 | Some p \<Rightarrow> p)"
    if "v \<in> set (filter g (map fst m))" for v
  proof -
    from that nk have "v \<noteq> k" by auto
    then show ?thesis by (simp add: kp)
  qed
  then have eq: "map (\<lambda>v. case map_of (kp # m) v of None \<Rightarrow> 0 | Some p \<Rightarrow> p) (filter g (map fst m)) =
        map (\<lambda>v. case map_of m v of None \<Rightarrow> 0 | Some p \<Rightarrow> p) (filter g (map fst m))"
    by (rule map_cong [OF refl])
  have "sum_list (map (\<lambda>v. case map_of (kp # m) v of None \<Rightarrow> 0 | Some p \<Rightarrow> p)
                   (filter g (map fst (kp # m)))) =
        (if g k then p else 0) +
        sum_list (map (\<lambda>v. case map_of (kp # m) v of None \<Rightarrow> 0 | Some p \<Rightarrow> p)
                   (filter g (map fst m)))"
    by (simp add: kp)
  also have "\<dots> = (if g k then p else 0) + sum_list (map snd (filter (\<lambda>kp. g (fst kp)) m))"
    by (simp only: eq Cons.IH [OF dm])
  also have "\<dots> = sum_list (map snd (filter (\<lambda>kp. g (fst kp)) (kp # m)))"
    by (simp add: kp)
  finally show ?case .
qed

lemma mass_sum_Total: "dict_ok h r \<Longrightarrow> mass_sum h r = Total h r"
  using sum_map_of_keys [of "dist_mapping (h ! r)" "\<lambda>v. True"]
  by (simp add: mass_sum_def Total_def dict_ok_def Prob_def [abs_def] Values_def)

lemma surviving_mass_eq:
  "dict_ok h r \<Longrightarrow> surviving_mass h r f = sum_list (map snd (surviving h r f))"
  using sum_map_of_keys [of "dist_mapping (h ! r)" "\<lambda>v. \<not> f v"]
  by (simp add: surviving_mass_def surviving_def dict_ok_def Prob_def [abs_def] Values_def)

lemma sum_list_scaled:
  "sum_list (map snd (map (\<lambda>kp. (fst kp, snd kp * c)) m)) = sum_list (map snd m) * c"
  for m :: "('a \<times> real) list"
  by (induction m) (simp_all add: algebra_simps)

lemma map_of_scaled:
  "map_of (map (\<lambda>kp. (fst kp, snd kp * c)) m) v = map_option (\<lambda>p. p * c) (map_of m v)"
  for m :: "('a \<times> real) list"
  by (induction m) auto

lemma map_of_filter_keys:
  "map_of (filter (\<lambda>kp. g (fst kp)) m) v = (if g v then map_of m v else None)"
  by (induction m) auto

lemma Prob_append_new:
  "Prob (h @ [D]) (length h) v = (case map_of (dist_mapping D) v of None \<Rightarrow> 0 | Some p \<Rightarrow> p)"
  by (simp add: Prob_def)

lemma Values_append_new: "Values (h @ [D]) (length h) = map fst (dist_mapping D)"
  by (simp add: Values_def)

lemma Prob_append_old: "live h r \<Longrightarrow> Prob (h @ [D]) r v = Prob h r v"
  by (simp add: Prob_def live_def nth_append)

lemma Values_append_old: "live h r \<Longrightarrow> Values (h @ [D]) r = Values h r"
  by (simp add: Values_def live_def nth_append)

lemma map_fst_filter_keys: "map fst (filter (\<lambda>kp. g (fst kp)) m) = filter g (map fst m)"
  by (induction m) auto

subsection \<open>What ConditionPmf computes\<close>

lemma ConditionPmf_success:
  fixes name_arg :: "string option"
  assumes lv: "live h pmf" and ok: "dict_ok h pmf" and nz: "surviving_mass h pmf f \<noteq> 0"
  defines "res \<equiv> ConditionPmf h pmf f name_arg"
  shows "fst res = Inr (length h)"
    and "Values (snd res) (length h) = filter (\<lambda>v. \<not> f v) (Values h pmf)"
    and "Prob (snd res) (length h) v =
           (if f v then 0 else Prob h pmf v / surviving_mass h pmf f)"
    and "mass_sum (snd res) (length h) = 1"
    and "dist_name (snd res ! length h) = (case name_arg of None \<Rightarrow> ''conditional'' | Some n \<Rightarrow> n)"
    and "take (length h) (snd res) = h"
    and "length (snd res) = Suc (length h)"
proof -
  define m where "m = surviving h pmf f"
  define total where "total = sum_list (map snd m)"
  define nm where "nm = (case name_arg of None \<Rightarrow> ''conditional'' | Some n \<Rightarrow> n)"
  define D where "D = \<lparr>dist_mapping = map (\<lambda>kp. (fst kp, snd kp * (1 / total))) m, dist_name = nm\<rparr>"
  have tot: "total = surviving_mass h pmf f"
    by (simp add: total_def m_def surviving_mass_eq [OF ok])
  with nz have tnz: "total \<noteq> 0" by simp
  have res: "res = (Inr (length h), h @ [D])"
    unfolding res_def ConditionPmf_eq [OF lv] Let_def
    using tnz by (simp add: D_def m_def total_def nm_def)
  show "fst res = Inr (length h)" by (simp add: res)
  show "take (length h) (snd res) = h" by (simp add: res)
  show "length (snd res) = Suc (length h)" by (simp add: res)
  show "dist_name (snd res ! length h) = (case name_arg of None \<Rightarrow> ''conditional'' | Some n \<Rightarrow> n)"
    by (simp add: res D_def nm_def)
  show vs: "Values (snd res) (length h) = filter (\<lambda>v. \<not> f v) (Values h pmf)"
    by (simp add: res Values_append_new D_def comp_def m_def surviving_def
        map_fst_filter_keys [of "\<lambda>v. \<not> f v"] Values_def)
  show "Prob (snd res) (length h) v =
           (if f v then 0 else Prob h pmf v / surviving_mass h pmf f)"
  proof -
    have a: "map_of (dist_mapping D) v = map_option (\<lambda>p. p * (1 / total)) (map_of m v)"
      unfolding D_def by (simp only: Distribution.select_convs map_of_scaled)
    have b: "map_of m v = (if \<not> f v then map_of (dist_mapping (h ! pmf)) v else None)"
      unfolding m_def surviving_def by (rule map_of_filter_keys)
    show ?thesis
      by (simp add: res Prob_append_new a b Prob_def tot split: option.split)
  qed
  have dk: "dict_ok (h @ [D]) (length h)"
    using ok by (simp add: dict_ok_def D_def comp_def m_def surviving_def
        map_fst_filter_keys [of "\<lambda>v. \<not> f v"])
  have "mass_sum (h @ [D]) (length h) = Total (h @ [D]) (length h)"
    by (rule mass_sum_Total [OF dk])
  also have "\<dots> = total * (1 / total)"
    unfolding Total_def D_def total_def
    by (simp only: nth_append_length Distribution.simps sum_list_scaled)
  also have "\<dots> = 1" using tnz by simp
  finally show "mass_sum (snd res) (length h) = 1" by (simp add: res)
qed

lemma ConditionPmf_failure:
  assumes lv: "live h pmf" and ok: "dict_ok h pmf" and z: "surviving_mass h pmf f = 0"
  shows "fst (ConditionPmf h pmf f name_arg) = Inl EmptyDistributionError"
    and "take (length h) (snd (ConditionPmf h pmf f name_arg)) = h"
proof -
  have "sum_list (map snd (surviving h pmf f)) = 0"
    using z by (simp add: surviving_mass_eq [OF ok])
  then show "fst (ConditionPmf h pmf f name_arg) = Inl EmptyDistributionError"
    and "take (length h) (snd (ConditionPmf h pmf f name_arg)) = h"
    unfolding ConditionPmf_eq [OF lv] Let_def by simp_all
qed

subsection \<open>Frame and normalization\<close>

lemma ConditionPmf_frame:
  assumes "live h pmf"
  shows "\<exists>D. snd (ConditionPmf h pmf f name_arg) = h @ [D]"
  unfolding ConditionPmf_eq [OF assms] Let_def by simp

lemma Normalize_total:
  assumes lv: "live h r" and ok: "dict_ok h r" and nz: "Total h r \<noteq> 0"
  shows "fst (Normalize h r) = Inr ()" and "mass_sum (snd (Normalize h r)) r = 1"
proof -
  define m where "m = map (\<lambda>kp. (fst kp, snd kp * (1 / Total h r))) (dist_mapping (h ! r))"
  have nr: "Normalize h r = (Inr (), set_mapping h r m)"
    using nz by (simp add: Normalize_def Let_def m_def)
  show "fst (Normalize h r) = Inr ()" by (simp add: nr)
  from lv have r: "r < length h" by (simp add: live_def)
  have dm: "dist_mapping (set_mapping h r m ! r) = m"
    using r by (simp add: set_mapping_def)
  have keys: "map fst m = map fst (dist_mapping (h ! r))"
    by (simp add: m_def comp_def)
  have dk: "dict_ok (set_mapping h r m) r"
    using ok by (simp add: dict_ok_def dm keys)
  have "mass_sum (set_mapping h r m) r = Total (set_mapping h r m) r"
    by (rule mass_sum_Total [OF dk])
  also have "\<dots> = sum_list (map snd m)"
    by (simp only: Total_def dm)
  also have "\<dots> = sum_list (map snd (dist_mapping (h ! r))) * (1 / Total h r)"
    unfolding m_def by (rule sum_list_scaled)
  also have "\<dots> = Total h r * (1 / Total h r)"
    by (simp only: Total_def)
  also have "\<dots> = 1" using nz by simp
  finally show "mass_sum (snd (Normalize h r)) r = 1" by (simp add: nr)
qed

lemma ConditionOnWeeks_eq:
  "ConditionOnWeeks h pmf week_arg name_arg =
     ConditionPmf h pmf (\<lambda>x. x < (case week_arg of None \<Rightarrow> 39 | Some w \<Rightarrow> w))
       (Some (case name_arg of None \<Rightarrow> ''conditional'' | Some n \<Rightarrow> n))"
  by (simp add: ConditionOnWeeks_def Let_def)

lemma dict_ok_append_old: "live h r \<Longrightarrow> dict_ok (h @ [D]) r = dict_ok h r"
  by (simp add: dict_ok_def live_def nth_append)

lemma surviving_mass_append_old:
  assumes "live h r"
  shows "surviving_mass (h @ [D]) r f = surviving_mass h r f"
proof -
  have "Prob (h @ [D]) r = Prob h r"
    by (rule ext) (rule Prob_append_old [OF assms])
  then show ?thesis
    by (simp add: surviving_mass_def Values_append_old [OF assms])
qed

lemma live_append: "live h r \<Longrightarrow> live (h @ [D]) r"
  by (simp add: live_def)

lemma weeks_copy:
  "Copy weeks_heap 0 ''conditional'' =
     (1, weeks_heap @ [\<lparr>dist_mapping = dist_mapping (weeks_heap ! 0), dist_name = ''conditional''\<rparr>])"
  by (simp add: Copy_def weeks_heap_def)

lemma risk_first_cond:
  "ConditionOnWeeks risk_heap 0 (Some 38) (Some ''first babies'') =
     (Inr 2, risk_heap @
        [\<lparr>dist_mapping = [(38, 4/10), (39, 6/10)], dist_name = ''first babies''\<rparr>])"
proof -
  have a: "live risk_heap 0" by (simp add: live_def risk_heap_def)
  show ?thesis
    unfolding ConditionOnWeeks_eq ConditionPmf_eq [OF a] Let_def
    by (simp add: surviving_def) (simp add: risk_heap_def)
qed

lemma risk_other_cond:
  "ConditionOnWeeks (risk_heap @ [D]) 1 (Some 38) (Some ''others'') =
     (Inr 3, risk_heap @ [D] @
        [\<lparr>dist_mapping = [(38, 5/10), (39, 5/10)], dist_name = ''others''\<rparr>])"
proof -
  have a: "live (risk_heap @ [D]) 1" by (simp add: live_def risk_heap_def)
  show ?thesis
    unfolding ConditionOnWeeks_eq ConditionPmf_eq [OF a] Let_def
    by (simp add: surviving_def) (simp add: risk_heap_def)
qed

lemma risk_ratio:
  "ratio_at 38 risk_cond_heap 2 3 = (Inr (PFloat (4 / 5)), risk_cond_heap)"
  by (simp add: ratio_at_def Prob_def risk_cond_heap_def risk_heap_def)

lemma RelativeRisk_not_float:
  "fst (RelativeRisk ComputeRelativeRisk h first others week_arg) \<noteq> Inr (PFloat x)"
  by (simp add: RelativeRisk_def Let_def split: prod.splits sum.splits)

section \<open>Name resolution in Hist\<close>

lemma Diff_nonempty: "2 \<le> length t \<Longrightarrow> Diff t \<noteq> []"
  by (simp add: Diff_def)

lemma py_min_nonempty: "xs \<noteq> [] \<Longrightarrow> \<exists>w. py_min xs = Inr w"
  by (cases xs) (simp_all add: py_min_def)

lemma bar_options_unbound:
  "lookup_name [(''hist'', a), (''options'', b), (''xs'', c), (''fs'', d), (''width'', e)]
     ''bar_options'' = Inl (NameError ''bar_options'')"
  by (simp add: lookup_name_def myplot_globals_def py_builtins_def)

section \<open>The claims\<close>

text \<open>
  C1 (as amended).  For every Distribution \<open>pmf\<close> of a store, predicate and name, if the
  values the predicate does not accept carry a total mass other than zero, then
  \<^verbatim>\<open>ConditionPmf\<close> returns a new Distribution whose values are exactly the values of
  \<open>pmf\<close> for which the predicate is false, each with its mass divided by the surviving
  mass, so that the masses sum to 1.
\<close>

theorem ConditionPmf_renormalizes:
  assumes "live h pmf" and "dict_ok h pmf" and "surviving_mass h pmf f \<noteq> 0"
  shows "fst (ConditionPmf h pmf f name_arg) = Inr (length h) \<and>
         \<not> live h (length h) \<and>
         live (snd (ConditionPmf h pmf f name_arg)) (length h) \<and>
         Values (snd (ConditionPmf h pmf f name_arg)) (length h) =
           filter (\<lambda>v. \<not> f v) (Values h pmf) \<and>
         Prob (snd (ConditionPmf h pmf f name_arg)) (length h) v =
           (if f v then 0 else Prob h pmf v / surviving_mass h pmf f) \<and>
         mass_sum (snd (ConditionPmf h pmf f name_arg)) (length h) = 1"
  using ConditionPmf_success [OF assms, of name_arg]
  by (simp add: live_def)

theorem ConditionPmf_renormalizes_witness:
  "live weeks_heap 0 \<and> dict_ok weeks_heap 0 \<and>
   surviving_mass weeks_heap 0 (\<lambda>x. x < 38) = 3 / 5 \<and>
   fst (ConditionPmf weeks_heap 0 (\<lambda>x. x < 38) None) = Inr 1 \<and>
   Values (snd (ConditionPmf weeks_heap 0 (\<lambda>x. x < 38) None)) 1 = [38, 39] \<and>
   Prob (snd (ConditionPmf weeks_heap 0 (\<lambda>x. x < 38) None)) 1 39 = 1 / 2 \<and>
   mass_sum (snd (ConditionPmf weeks_heap 0 (\<lambda>x. x < 38) None)) 1 = 1"
proof -
  have a: "live weeks_heap 0" by (simp add: live_def weeks_heap_def)
  have b: "dict_ok weeks_heap 0" by (simp add: dict_ok_def weeks_heap_def)
  have c: "surviving_mass weeks_heap 0 (\<lambda>x. x < 38) = 3 / 5"
    by (simp add: surviving_mass_def Values_def Prob_def weeks_heap_def)
  have d: "surviving_mass weeks_heap 0 (\<lambda>x. x < 38) \<noteq> 0" by (simp add: c)
  have e: "length weeks_heap = 1" by (simp add: weeks_heap_def)
  have f: "Values weeks_heap 0 = [35, 36, 37, 38, 39]" by (simp add: Values_def weeks_heap_def)
  have g: "Prob weeks_heap 0 39 = 3 / 10" by (simp add: Prob_def weeks_heap_def)
  show ?thesis
    using ConditionPmf_renormalizes [OF a b d, of None 39] a b
    by (simp add: c e f g)
qed

text \<open>
  C1 as stated fails: in the Distribution \<open>{1: 0.0, 2: 1.0}\<close> the value 1 survives the
  predicate \<open>x = 2\<close>, yet the surviving mass is zero and \<^verbatim>\<open>Normalize\<close> raises.
\<close>

theorem ConditionPmf_zero_mass_counterexample:
  "live zero_mass_heap 0 \<and> dict_ok zero_mass_heap 0 \<and> mass_sum zero_mass_heap 0 = 1 \<and>
   Prob zero_mass_heap 0 1 = 0 \<and> Prob zero_mass_heap 0 2 = 1 \<and>
   1 \<in> set (Values zero_mass_heap 0) \<and> \<not> is_two 1 \<and>
   fst (ConditionPmf zero_mass_heap 0 is_two None) = Inl EmptyDistributionError"
proof -
  have a: "live zero_mass_heap 0" by (simp add: live_def zero_mass_heap_def)
  have "fst (ConditionPmf zero_mass_heap 0 is_two None) = Inl EmptyDistributionError"
    unfolding ConditionPmf_eq [OF a] Let_def
    by (simp add: surviving_def zero_mass_heap_def is_two_def)
  then show ?thesis
    by (simp add: live_def dict_ok_def mass_sum_def Values_def Prob_def zero_mass_heap_def
        is_two_def)
qed

text \<open>
  C2 (as amended).  \<^verbatim>\<open>RelativeRisk(first, others, week)\<close>, with \<open>week\<close> 38 when
  omitted, takes two tables and computes \<open>first_cond\<close> as
  \<^verbatim>\<open>ConditionOnWeeks(first.pmf, week, 'first babies')\<close> and \<open>other_cond\<close> as
  \<^verbatim>\<open>ConditionOnWeeks(others.pmf, week, 'others')\<close>.  Its result is never a number.
  If either Distribution has no mass at or above \<open>week\<close>, it raises
  \<^verbatim>\<open>EmptyDistributionError\<close>.  Otherwise \<^verbatim>\<open>Prob(week)\<close> of each conditioned
  Distribution is the conditional probability (the mass at \<open>week\<close> over the mass at or
  above \<open>week\<close>), both are handed to \<^verbatim>\<open>risk.ComputeRelativeRisk\<close>, an error of that
  call propagates, and when it returns the result of \<^verbatim>\<open>RelativeRisk\<close> is \<^verbatim>\<open>None\<close>,
  whatever the collaborator returned.
\<close>

theorem RelativeRisk_returns_None:
  fixes h :: "int heap" and week_arg :: "int option" and first others :: table
  defines "week \<equiv> (case week_arg of None \<Rightarrow> 38 | Some w \<Rightarrow> w)"
  defines "first_res \<equiv> ConditionOnWeeks h (table_pmf first) (Some week) (Some ''first babies'')"
  defines "other_res \<equiv>
    ConditionOnWeeks (snd first_res) (table_pmf others) (Some week) (Some ''others'')"
  assumes l1: "live h (table_pmf first)" and d1: "dict_ok h (table_pmf first)"
    and l2: "live h (table_pmf others)" and d2: "dict_ok h (table_pmf others)"
  shows "fst (RelativeRisk ComputeRelativeRisk h first others week_arg) \<noteq> Inr (PFloat x) \<and>
    (if surviving_mass h (table_pmf first) (\<lambda>x. x < week) = 0 \<or>
        surviving_mass h (table_pmf others) (\<lambda>x. x < week) = 0
     then fst (RelativeRisk ComputeRelativeRisk h first others week_arg) =
            Inl EmptyDistributionError
     else fst first_res = Inr (length h) \<and>
          fst other_res = Inr (Suc (length h)) \<and>
          Prob (snd other_res) (length h) week =
            Prob h (table_pmf first) week /
              surviving_mass h (table_pmf first) (\<lambda>x. x < week) \<and>
          Prob (snd other_res) (Suc (length h)) week =
            Prob h (table_pmf others) week /
              surviving_mass h (table_pmf others) (\<lambda>x. x < week) \<and>
          RelativeRisk ComputeRelativeRisk h first others week_arg =
            (case ComputeRelativeRisk (snd other_res) (length h) (Suc (length h)) of
               (Inl e, h3) \<Rightarrow> (Inl e, h3)
             | (Inr v, h3) \<Rightarrow> (Inr PNone, h3)))"
proof -
  let ?f = "\<lambda>x. x < week"
  let ?RR = "RelativeRisk ComputeRelativeRisk h first others week_arg"
  have nf: "fst ?RR \<noteq> Inr (PFloat x)"
    by (rule RelativeRisk_not_float)
  have r1: "first_res = ConditionPmf h (table_pmf first) ?f (Some ''first babies'')"
    unfolding first_res_def by (simp add: ConditionOnWeeks_eq)
  obtain D1 where h1: "snd first_res = h @ [D1]"
    unfolding r1 using ConditionPmf_frame [OF l1] by blast
  have l2': "live (h @ [D1]) (table_pmf others)" by (rule live_append [OF l2])
  have d2': "dict_ok (h @ [D1]) (table_pmf others)"
    using d2 by (simp add: dict_ok_append_old [OF l2])
  have r2: "other_res = ConditionPmf (h @ [D1]) (table_pmf others) ?f (Some ''others'')"
    unfolding other_res_def h1 by (simp add: ConditionOnWeeks_eq)
  have rest: "(if surviving_mass h (table_pmf first) ?f = 0 \<or>
        surviving_mass h (table_pmf others) ?f = 0
     then fst ?RR = Inl EmptyDistributionError
     else fst first_res = Inr (length h) \<and>
          fst other_res = Inr (Suc (length h)) \<and>
          Prob (snd other_res) (length h) week =
            Prob h (table_pmf first) week / surviving_mass h (table_pmf first) ?f \<and>
          Prob (snd other_res) (Suc (length h)) week =
            Prob h (table_pmf others) week / surviving_mass h (table_pmf others) ?f \<and>
          ?RR =
            (case ComputeRelativeRisk (snd other_res) (length h) (Suc (length h)) of
               (Inl e, h3) \<Rightarrow> (Inl e, h3)
             | (Inr v, h3) \<Rightarrow> (Inr PNone, h3)))"
  proof (cases "surviving_mass h (table_pmf first) ?f = 0")
    case True
    have "fst first_res = Inl EmptyDistributionError"
      unfolding r1 by (rule ConditionPmf_failure(1) [OF l1 d1 True])
    then have e1: "ConditionOnWeeks h (table_pmf first) (Some week) (Some ''first babies'') =
        (Inl EmptyDistributionError, snd first_res)"
      by (simp add: first_res_def prod_eq_iff)
    have "fst ?RR = Inl EmptyDistributionError"
      unfolding RelativeRisk_def Let_def week_def [symmetric] e1 prod.case sum.case
      by simp
    with True show ?thesis by simp
  next
    case m1: False
    have f1: "fst first_res = Inr (length h)"
      unfolding r1 by (rule ConditionPmf_success(1) [OF l1 d1 m1])
    have e1: "ConditionOnWeeks h (table_pmf first) (Some week) (Some ''first babies'') =
        (Inr (length h), snd first_res)"
      using f1 by (simp add: first_res_def prod_eq_iff)
    show ?thesis
    proof (cases "surviving_mass h (table_pmf others) ?f = 0")
      case True
      then have z: "surviving_mass (h @ [D1]) (table_pmf others) ?f = 0"
        by (simp add: surviving_mass_append_old [OF l2])
      have "fst other_res = Inl EmptyDistributionError"
        unfolding r2 by (rule ConditionPmf_failure(1) [OF l2' d2' z])
      then have e2: "ConditionOnWeeks (snd first_res) (table_pmf others) (Some week)
          (Some ''others'') = (Inl EmptyDistributionError, snd other_res)"
        by (simp add: other_res_def prod_eq_iff)
      have "fst ?RR = Inl EmptyDistributionError"
        unfolding RelativeRisk_def Let_def week_def [symmetric] e1 prod.case sum.case e2
        by simp
      with True show ?thesis by simp
    next
      case m2: False
      then have m2': "surviving_mass (h @ [D1]) (table_pmf others) ?f \<noteq> 0"
        by (simp add: surviving_mass_append_old [OF l2])
      have p1: "Prob (snd first_res) (length h) week =
          Prob h (table_pmf first) week / surviving_mass h (table_pmf first) ?f"
        unfolding r1
        using ConditionPmf_success(3) [OF l1 d1 m1, of "Some ''first babies''" week]
        by simp
      obtain D2 where h2: "snd other_res = (h @ [D1]) @ [D2]"
        unfolding r2 using ConditionPmf_frame [OF l2'] by blast
      have f2: "fst other_res = Inr (Suc (length h))"
        unfolding r2 using ConditionPmf_success(1) [OF l2' d2' m2', of "Some ''others''"]
        by simp
      have p2: "Prob (snd other_res) (Suc (length h)) week =
          Prob h (table_pmf others) week / surviving_mass h (table_pmf others) ?f"
        unfolding r2
        using ConditionPmf_success(3) [OF l2' d2' m2', of "Some ''others''" week]
        by (simp add: Prob_append_old [OF l2] surviving_mass_append_old [OF l2])
      have ln: "live (h @ [D1]) (length h)" by (simp add: live_def)
      have p1': "Prob (snd other_res) (length h) week =
          Prob h (table_pmf first) week / surviving_mass h (table_pmf first) ?f"
        unfolding h2 Prob_append_old [OF ln] using p1 by (simp add: h1)
      have e2: "ConditionOnWeeks (snd first_res) (table_pmf others) (Some week)
          (Some ''others'') = (Inr (Suc (length h)), snd other_res)"
        using f2 by (simp add: other_res_def prod_eq_iff)
      have rr: "?RR =
            (case ComputeRelativeRisk (snd other_res) (length h) (Suc (length h)) of
               (Inl e, h3) \<Rightarrow> (Inl e, h3)
             | (Inr v, h3) \<Rightarrow> (Inr PNone, h3))"
        unfolding RelativeRisk_def Let_def week_def [symmetric] e1 prod.case sum.case e2 ..
      from m1 m2 have "\<not> (surviving_mass h (table_pmf first) ?f = 0 \<or>
          surviving_mass h (table_pmf others) ?f = 0)"
        by simp
      then show ?thesis
        unfolding if_not_P [OF \<open>\<not> (surviving_mass h (table_pmf first) ?f = 0 \<or>
          surviving_mass h (table_pmf others) ?f = 0)\<close>]
        by (intro conjI f1 f2 p1' p2 rr)
    qed
  qed
  show ?thesis
    by (rule conjI [OF nf rest])
qed

theorem RelativeRisk_returns_None_witness:
  "live risk_heap 0 \<and> dict_ok risk_heap 0 \<and> live risk_heap 1 \<and> dict_ok risk_heap 1 \<and>
   surviving_mass risk_heap 0 (\<lambda>x. x < 38) = 1 \<and>
   surviving_mass risk_heap 1 (\<lambda>x. x < 38) = 1 \<and>
   ratio_at 38 risk_cond_heap 2 3 = (Inr (PFloat (4 / 5)), risk_cond_heap) \<and>
   fst (RelativeRisk (ratio_at 38) risk_heap first_table others_table None) \<noteq>
     Inr (PFloat (4 / 5)) \<and>
   RelativeRisk (ratio_at 38) risk_heap first_table others_table None =
     (Inr PNone, risk_cond_heap)"
proof -
  have t1: "table_pmf first_table = 0" by (simp add: first_table_def)
  have t2: "table_pmf others_table = 1" by (simp add: others_table_def)
  have l1: "live risk_heap 0" by (simp add: live_def risk_heap_def)
  have l2: "live risk_heap 1" by (simp add: live_def risk_heap_def)
  have d1: "dict_ok risk_heap 0" by (simp add: dict_ok_def risk_heap_def)
  have d2: "dict_ok risk_heap 1" by (simp add: dict_ok_def risk_heap_def)
  have m1: "surviving_mass risk_heap 0 (\<lambda>x. x < 38) = 1"
    by (simp add: surviving_mass_def Values_def Prob_def risk_heap_def)
  have m2: "surviving_mass risk_heap 1 (\<lambda>x. x < 38) = 1"
    by (simp add: surviving_mass_def Values_def Prob_def risk_heap_def)
  have n: "\<not> (surviving_mass risk_heap 0 (\<lambda>x. x < 38) = 0 \<or>
      surviving_mass risk_heap 1 (\<lambda>x. x < 38) = 0)"
    unfolding m1 m2 by simp
  have o: "snd (ConditionOnWeeks
              (snd (ConditionOnWeeks risk_heap 0 (Some 38) (Some ''first babies'')))
              1 (Some 38) (Some ''others'')) = risk_cond_heap"
    unfolding risk_first_cond snd_conv risk_other_cond by (simp add: risk_cond_heap_def)
  have len: "length risk_heap = 2" by (simp add: risk_heap_def)
  have s: "Suc 2 = 3" by simp
  note t = RelativeRisk_returns_None [where h = risk_heap and first = first_table
      and others = others_table and week_arg = None and ComputeRelativeRisk = "ratio_at 38"
      and x = "4 / 5", unfolded option.case t1 t2, OF l1 d1 l2 d2]
  note u = t [THEN conjunct2, unfolded if_not_P [OF n] o len s risk_ratio prod.case sum.case]
  from t have nf: "fst (RelativeRisk (ratio_at 38) risk_heap first_table others_table None) \<noteq>
     Inr (PFloat (4 / 5))"
    by blast
  from u have rr: "RelativeRisk (ratio_at 38) risk_heap first_table others_table None =
     (Inr PNone, risk_cond_heap)"
    by blast
  show ?thesis
    by (intro conjI l1 d1 l2 d2 m1 m2 risk_ratio nf rr)
qed

text \<open>
  C2 as stated fails: for \<open>first = {38: 0.4, 39: 0.6}\<close>, \<open>others = {38: 0.5, 39: 0.5}\<close>
  and week 38 the ratio of the conditional probabilities is 0.8, and even with a
  collaborator that returns this ratio the result of \<^verbatim>\<open>RelativeRisk\<close> is \<^verbatim>\<open>None\<close>.
\<close>

theorem RelativeRisk_ratio_counterexample:
  "ConditionOnWeeks risk_heap 0 (Some 38) (Some ''first babies'') =
     (Inr 2, take 3 risk_cond_heap) \<and>
   ConditionOnWeeks (take 3 risk_cond_heap) 1 (Some 38) (Some ''others'') =
     (Inr 3, risk_cond_heap) \<and>
   Prob risk_cond_heap 2 38 / Prob risk_cond_heap 3 38 = 4 / 5 \<and>
   RelativeRisk (ratio_at 38) risk_heap first_table others_table (Some 38) =
     (Inr PNone, risk_cond_heap) \<and>
   PNone \<noteq> PFloat (4 / 5)"
proof -
  have t1: "table_pmf first_table = 0" by (simp add: first_table_def)
  have t2: "table_pmf others_table = 1" by (simp add: others_table_def)
  have tk: "take 3 risk_cond_heap = risk_heap @
        [\<lparr>dist_mapping = [(38, 4/10), (39, 6/10)], dist_name = ''first babies''\<rparr>]"
    by (simp add: risk_cond_heap_def risk_heap_def)
  have c1: "ConditionOnWeeks risk_heap 0 (Some 38) (Some ''first babies'') =
     (Inr 2, take 3 risk_cond_heap)"
    unfolding tk by (rule risk_first_cond)
  have c2: "ConditionOnWeeks (take 3 risk_cond_heap) 1 (Some 38) (Some ''others'') =
     (Inr 3, risk_cond_heap)"
    unfolding tk risk_other_cond by (simp add: risk_cond_heap_def)
  have p: "Prob risk_cond_heap 2 38 / Prob risk_cond_heap 3 38 = 4 / 5"
    by (simp add: Prob_def risk_cond_heap_def risk_heap_def)
  have rr: "RelativeRisk (ratio_at 38) risk_heap first_table others_table (Some 38) =
     (Inr PNone, risk_cond_heap)"
    unfolding RelativeRisk_def Let_def option.case t1 t2 c1 prod.case sum.case c2 risk_ratio ..
  have ne: "PNone \<noteq> PFloat (4 / 5)" by simp
  show ?thesis
    by (intro conjI c1 c2 p rr ne)
qed

text \<open>
  C3.  For every Distribution \<open>pmf\<close> of a store (with a nonempty mapping or not),
  \<^verbatim>\<open>ConditionPmf\<close> with a predicate that is true of every value raises
  \<^verbatim>\<open>EmptyDistributionError\<close>: the result is the error, never a Distribution.
\<close>

theorem ConditionPmf_remove_all:
  assumes "live h pmf"
  shows "fst (ConditionPmf h pmf (\<lambda>x. True) name_arg) = Inl EmptyDistributionError"
  unfolding ConditionPmf_eq [OF assms] Let_def
  by (simp add: surviving_def)

theorem ConditionPmf_remove_all_witness:
  "live weeks_heap 0 \<and>
   fst (ConditionPmf weeks_heap 0 (\<lambda>x. True) None) = Inl EmptyDistributionError"
proof -
  have a: "live weeks_heap 0" by (simp add: live_def weeks_heap_def)
  show ?thesis using ConditionPmf_remove_all [OF a, of None] a by simp
qed

text \<open>
  C4.  For every Distribution of a store, \<^verbatim>\<open>Normalize()\<close> fails (with
  \<^verbatim>\<open>EmptyDistributionError\<close>, leaving the store as it was) exactly when the total
  mass is 0; otherwise it succeeds, and afterwards the sum of \<^verbatim>\<open>Prob(v)\<close> over the
  \<^verbatim>\<open>Values()\<close> is 1.  Masses are reals, so the sum is 1 exactly.
\<close>

theorem Normalize_sums_to_one:
  assumes "live h r" and "dict_ok h r"
  shows "if Total h r = 0 then Normalize h r = (Inl EmptyDistributionError, h)
         else fst (Normalize h r) = Inr () \<and> mass_sum (snd (Normalize h r)) r = 1"
proof (cases "Total h r = 0")
  case True
  then show ?thesis by (simp add: Normalize_def)
next
  case False
  then show ?thesis using Normalize_total [OF assms False] by simp
qed

theorem Normalize_sums_to_one_witness:
  "live counts_heap 0 \<and> dict_ok counts_heap 0 \<and> Total counts_heap 0 = 8 \<and>
   fst (Normalize counts_heap 0) = Inr () \<and>
   mass_sum (snd (Normalize counts_heap 0)) 0 = 1"
proof -
  have a: "live counts_heap 0" by (simp add: live_def counts_heap_def)
  have b: "dict_ok counts_heap 0" by (simp add: dict_ok_def counts_heap_def)
  have c: "Total counts_heap 0 = 8" by (simp add: Total_def counts_heap_def)
  show ?thesis using Normalize_sums_to_one [OF a b] a b by (simp add: c)
qed

text \<open>
  C5 (as amended).  \<^verbatim>\<open>ConditionOnWeeks(pmf, week, name)\<close> is \<^verbatim>\<open>ConditionPmf\<close> with
  the predicate \<open>x < week\<close>, where \<open>week\<close> is 39 and the name is \<^verbatim>\<open>'conditional'\<close>
  when they are omitted.  When the values \<open>\<ge> week\<close> carry a total mass other than
  zero, it returns \<open>pmf\<close> restricted to the values \<open>\<ge> week\<close>, renormalized, under
  that name; when they carry none, it raises \<^verbatim>\<open>EmptyDistributionError\<close>.
\<close>

theorem ConditionOnWeeks_restricts:
  fixes h :: "int heap" and week_arg :: "int option" and name_arg :: "string option"
  defines "week \<equiv> (case week_arg of None \<Rightarrow> 39 | Some w \<Rightarrow> w)"
  defines "nm \<equiv> (case name_arg of None \<Rightarrow> ''conditional'' | Some n \<Rightarrow> n)"
  assumes "live h pmf" and "dict_ok h pmf"
  shows "ConditionOnWeeks h pmf week_arg name_arg =
           ConditionPmf h pmf (\<lambda>x. x < week) (Some nm) \<and>
         (if surviving_mass h pmf (\<lambda>x. x < week) = 0
          then fst (ConditionOnWeeks h pmf week_arg name_arg) = Inl EmptyDistributionError
          else fst (ConditionOnWeeks h pmf week_arg name_arg) = Inr (length h) \<and>
               Values (snd (ConditionOnWeeks h pmf week_arg name_arg)) (length h) =
                 filter (\<lambda>v. week \<le> v) (Values h pmf) \<and>
               Prob (snd (ConditionOnWeeks h pmf week_arg name_arg)) (length h) v =
                 (if week \<le> v then Prob h pmf v / surviving_mass h pmf (\<lambda>x. x < week) else 0) \<and>
               mass_sum (snd (ConditionOnWeeks h pmf week_arg name_arg)) (length h) = 1 \<and>
               dist_name (snd (ConditionOnWeeks h pmf week_arg name_arg) ! length h) = nm)"
proof -
  have eq: "ConditionOnWeeks h pmf week_arg name_arg =
           ConditionPmf h pmf (\<lambda>x. x < week) (Some nm)"
    unfolding week_def nm_def by (rule ConditionOnWeeks_eq)
  have ge: "(\<lambda>v. \<not> v < week) = (\<lambda>v. week \<le> v)"
    by (simp add: not_less)
  show ?thesis
  proof (cases "surviving_mass h pmf (\<lambda>x. x < week) = 0")
    case True
    then show ?thesis
      using ConditionPmf_failure(1) [OF assms(3,4) True, of "Some nm"]
      by (simp add: eq)
  next
    case False
    then show ?thesis
      using ConditionPmf_success(1,2,4,5) [OF assms(3,4) False, of "Some nm"]
        ConditionPmf_success(3) [OF assms(3,4) False, of "Some nm" v]
      by (simp add: eq ge not_less)
  qed
qed

theorem ConditionOnWeeks_restricts_witness:
  "live weeks_heap 0 \<and> dict_ok weeks_heap 0 \<and>
   surviving_mass weeks_heap 0 (\<lambda>x. x < 39) \<noteq> 0 \<and>
   ConditionOnWeeks weeks_heap 0 None None =
     ConditionPmf weeks_heap 0 (\<lambda>x. x < 39) (Some ''conditional'') \<and>
   fst (ConditionOnWeeks weeks_heap 0 None None) = Inr 1 \<and>
   Values (snd (ConditionOnWeeks weeks_heap 0 None None)) 1 = [39] \<and>
   Prob (snd (ConditionOnWeeks weeks_heap 0 None None)) 1 39 = 1 \<and>
   dist_name (snd (ConditionOnWeeks weeks_heap 0 None None) ! 1) = ''conditional''"
proof -
  have a: "live weeks_heap 0" by (simp add: live_def weeks_heap_def)
  have b: "dict_ok weeks_heap 0" by (simp add: dict_ok_def weeks_heap_def)
  have c: "surviving_mass weeks_heap 0 (\<lambda>x. x < 39) = 3 / 10"
    by (simp add: surviving_mass_def Values_def Prob_def weeks_heap_def)
  then have c': "surviving_mass weeks_heap 0 (\<lambda>x. x < 39) \<noteq> 0" by simp
  have e: "length weeks_heap = 1" by (simp add: weeks_heap_def)
  have f: "filter (\<lambda>v. 39 \<le> v) (Values weeks_heap 0) = [39]"
    by (simp add: Values_def weeks_heap_def)
  have g: "Prob weeks_heap 0 39 = 3 / 10" by (simp add: Prob_def weeks_heap_def)
  note t = ConditionOnWeeks_restricts [OF a b, where week_arg = None and name_arg = None
      and v = 39, unfolded option.case if_not_P [OF c'] e f]
  from t have t0: "ConditionOnWeeks weeks_heap 0 None None =
     ConditionPmf weeks_heap 0 (\<lambda>x. x < 39) (Some ''conditional'')"
    by blast
  from t have t1: "fst (ConditionOnWeeks weeks_heap 0 None None) = Inr 1"
    by blast
  from t have t2: "Values (snd (ConditionOnWeeks weeks_heap 0 None None)) 1 = [39]"
    by blast
  from t have "Prob (snd (ConditionOnWeeks weeks_heap 0 None None)) 1 39 =
      (if (39::int) \<le> 39
       then Prob weeks_heap 0 39 / surviving_mass weeks_heap 0 (\<lambda>x. x < 39) else 0)"
    by blast
  then have t3: "Prob (snd (ConditionOnWeeks weeks_heap 0 None None)) 1 39 = 1"
    by (simp add: c g)
  from t have t4: "dist_name (snd (ConditionOnWeeks weeks_heap 0 None None) ! 1) =
      ''conditional''"
    by blast
  show ?thesis
    by (intro conjI a b c' t0 t1 t2 t3 t4)
qed

text \<open>
  C5 as stated fails: the Distribution \<open>{35: 0.1, 36: 0.1, 37: 0.2, 38: 0.3, 39: 0.3}\<close>
  has no value \<open>\<ge> 40\<close>, so with week 40 every value is removed and
  \<^verbatim>\<open>ConditionOnWeeks\<close> raises instead of returning a Distribution.
\<close>

theorem ConditionOnWeeks_no_mass_counterexample:
  "live weeks_heap 0 \<and> dict_ok weeks_heap 0 \<and> mass_sum weeks_heap 0 = 1 \<and>
   Values weeks_heap 0 = [35, 36, 37, 38, 39] \<and>
   fst (ConditionOnWeeks weeks_heap 0 (Some 40) None) = Inl EmptyDistributionError"
proof -
  have a: "live weeks_heap 0" by (simp add: live_def weeks_heap_def)
  have b: "dict_ok weeks_heap 0" by (simp add: dict_ok_def weeks_heap_def)
  have c: "mass_sum weeks_heap 0 = 1"
    by (simp add: mass_sum_def Values_def Prob_def weeks_heap_def)
  have d: "Values weeks_heap 0 = [35, 36, 37, 38, 39]"
    by (simp add: Values_def weeks_heap_def)
  have e: "fst (ConditionOnWeeks weeks_heap 0 (Some 40) None) = Inl EmptyDistributionError"
    unfolding ConditionOnWeeks_eq ConditionPmf_eq [OF a] Let_def
    by (simp add: surviving_def) (simp add: weeks_heap_def)
  show ?thesis
    by (intro conjI a b c d e)
qed

text \<open>
  C6.  For the Distribution \<open>{35: 0.1, 36: 0.1, 37: 0.2, 38: 0.3, 39: 0.3}\<close> (total 1),
  \<^verbatim>\<open>ConditionOnWeeks(pmf, week=38)\<close> removes the values 35, 36 and 37, whose mass is
  0.4, which leaves \<open>{38: 0.3, 39: 0.3}\<close> in the copy; normalized, the result is
  \<open>{38: 0.5, 39: 0.5}\<close>, and \<^verbatim>\<open>Prob(38)\<close> on it is 0.5.
\<close>

theorem ConditionOnWeeks_example:
  "filter (\<lambda>x. x < 38) (Values weeks_heap 0) = [35, 36, 37] \<and>
   sum_list (map (Prob weeks_heap 0) [35, 36, 37]) = 4 / 10 \<and>
   Total weeks_heap 0 = 1 \<and>
   dist_mapping
     (fold (\<lambda>val hh. Remove hh 1 val) [35, 36, 37] (snd (Copy weeks_heap 0 ''conditional'')) ! 1) =
     [(38, 3 / 10), (39, 3 / 10)] \<and>
   ConditionOnWeeks weeks_heap 0 (Some 38) None =
     (Inr 1, weeks_heap @
        [\<lparr>dist_mapping = [(38, 1 / 2), (39, 1 / 2)], dist_name = ''conditional''\<rparr>]) \<and>
   Prob (snd (ConditionOnWeeks weeks_heap 0 (Some 38) None)) 1 38 = 1 / 2"
proof -
  have a: "live weeks_heap 0" by (simp add: live_def weeks_heap_def)
  have len: "length weeks_heap = 1" by (simp add: weeks_heap_def)
  have v: "filter (\<lambda>x. x < 38) (Values weeks_heap 0) = [35, 36, 37]"
    by (simp add: Values_def weeks_heap_def)
  have s: "sum_list (map (Prob weeks_heap 0) [35, 36, 37]) = 4 / 10"
    by (simp add: Prob_def weeks_heap_def)
  have t: "Total weeks_heap 0 = 1"
    by (simp add: Total_def weeks_heap_def)
  have f: "dist_mapping
     (fold (\<lambda>val hh. Remove hh 1 val) [35, 36, 37] (snd (Copy weeks_heap 0 ''conditional'')) ! 1) =
     [(38, 3 / 10), (39, 3 / 10)]"
    using fold_Remove_append [of weeks_heap "[35, 36, 37]"
        "\<lparr>dist_mapping = dist_mapping (weeks_heap ! 0), dist_name = ''conditional''\<rparr>"]
    by (simp add: weeks_copy len) (simp add: weeks_heap_def)
  have c: "ConditionOnWeeks weeks_heap 0 (Some 38) None =
     (Inr 1, weeks_heap @
        [\<lparr>dist_mapping = [(38, 1 / 2), (39, 1 / 2)], dist_name = ''conditional''\<rparr>])"
    unfolding ConditionOnWeeks_eq ConditionPmf_eq [OF a] Let_def
    by (simp add: surviving_def) (simp add: weeks_heap_def)
  have p: "Prob (snd (ConditionOnWeeks weeks_heap 0 (Some 38) None)) 1 38 = 1 / 2"
    unfolding c by (simp add: Prob_def weeks_heap_def)
  show ?thesis
    by (intro conjI v s t f c p)
qed

text \<open>
  C7.  For every Distribution \<open>pmf\<close> of a store whose masses sum to 1,
  \<^verbatim>\<open>ConditionPmf\<close> with a predicate that is false of every value succeeds, and the
  Distribution it returns has the values of \<open>pmf\<close> and the same \<^verbatim>\<open>Prob(v)\<close> for every
  \<open>v\<close>.
\<close>

theorem ConditionPmf_keep_all:
  assumes "live h pmf" and "Total h pmf = 1"
  shows "fst (ConditionPmf h pmf (\<lambda>x. False) name_arg) = Inr (length h) \<and>
         Values (snd (ConditionPmf h pmf (\<lambda>x. False) name_arg)) (length h) = Values h pmf \<and>
         Prob (snd (ConditionPmf h pmf (\<lambda>x. False) name_arg)) (length h) v = Prob h pmf v"
proof -
  have s: "surviving h pmf (\<lambda>x. False) = dist_mapping (h ! pmf)"
    by (simp add: surviving_def)
  have t: "sum_list (map snd (dist_mapping (h ! pmf))) = 1"
    using assms(2) by (simp add: Total_def)
  show ?thesis
    unfolding ConditionPmf_eq [OF assms(1)] Let_def s t
    by (simp add: Values_def Prob_def)
qed

theorem ConditionPmf_keep_all_witness:
  "live weeks_heap 0 \<and> Total weeks_heap 0 = 1 \<and>
   fst (ConditionPmf weeks_heap 0 (\<lambda>x. False) None) = Inr 1 \<and>
   Values (snd (ConditionPmf weeks_heap 0 (\<lambda>x. False) None)) 1 = [35, 36, 37, 38, 39] \<and>
   Prob (snd (ConditionPmf weeks_heap 0 (\<lambda>x. False) None)) 1 37 = 1 / 5"
proof -
  have a: "live weeks_heap 0" by (simp add: live_def weeks_heap_def)
  have b: "Total weeks_heap 0 = 1" by (simp add: Total_def weeks_heap_def)
  have e: "length weeks_heap = 1" by (simp add: weeks_heap_def)
  have f: "Values weeks_heap 0 = [35, 36, 37, 38, 39]" by (simp add: Values_def weeks_heap_def)
  have g: "Prob weeks_heap 0 37 = 1 / 5" by (simp add: Prob_def weeks_heap_def)
  show ?thesis
    using ConditionPmf_keep_all [OF a b, of None 37] a b by (simp add: e f g)
qed

text \<open>
  C8.  \<^verbatim>\<open>Copy(name)\<close> returns a new object (a reference that was not in the store)
  whose mapping equals that of the source and whose name is the given one, and it leaves
  every object already in the store as it was.  Removing a value from the copy does not
  change \<^verbatim>\<open>Values()\<close> and \<^verbatim>\<open>Prob()\<close> of the source; consequently
  \<^verbatim>\<open>ConditionPmf\<close>, which removes values from the copy only, leaves the whole earlier
  store, and so \<^verbatim>\<open>Values()\<close> and \<^verbatim>\<open>Prob()\<close> of \<open>pmf\<close>, unchanged, whether it returns
  or raises.
\<close>

theorem Copy_independent:
  assumes "live h pmf"
  shows "fst (Copy h pmf nm) = length h \<and>
         \<not> live h (fst (Copy h pmf nm)) \<and>
         live (snd (Copy h pmf nm)) (fst (Copy h pmf nm)) \<and>
         dist_mapping (snd (Copy h pmf nm) ! fst (Copy h pmf nm)) = dist_mapping (h ! pmf) \<and>
         dist_name (snd (Copy h pmf nm) ! fst (Copy h pmf nm)) = nm \<and>
         take (length h) (snd (Copy h pmf nm)) = h \<and>
         Values (Remove (snd (Copy h pmf nm)) (fst (Copy h pmf nm)) v) pmf = Values h pmf \<and>
         Prob (Remove (snd (Copy h pmf nm)) (fst (Copy h pmf nm)) v) pmf w = Prob h pmf w \<and>
         take (length h) (snd (ConditionPmf h pmf f name_arg)) = h \<and>
         Values (snd (ConditionPmf h pmf f name_arg)) pmf = Values h pmf \<and>
         Prob (snd (ConditionPmf h pmf f name_arg)) pmf w = Prob h pmf w"
proof -
  obtain D where D: "snd (ConditionPmf h pmf f name_arg) = h @ [D]"
    using ConditionPmf_frame [OF assms] by blast
  have c: "Copy h pmf nm = (length h, h @ [\<lparr>dist_mapping = dist_mapping (h ! pmf), dist_name = nm\<rparr>])"
    by (simp add: Copy_def)
  show ?thesis
    unfolding c fst_conv snd_conv D Remove_append
    using assms
    by (simp add: live_def Values_append_old Prob_append_old)
qed

theorem Copy_independent_witness:
  "live weeks_heap 0 \<and> fst (Copy weeks_heap 0 ''copy'') = 1 \<and>
   Values (Remove (snd (Copy weeks_heap 0 ''copy'')) (fst (Copy weeks_heap 0 ''copy'')) 35) 0 =
     [35, 36, 37, 38, 39] \<and>
   Values (snd (ConditionPmf weeks_heap 0 (\<lambda>x. x < 38) None)) 0 = [35, 36, 37, 38, 39] \<and>
   Prob (snd (ConditionPmf weeks_heap 0 (\<lambda>x. x < 38) None)) 0 35 = 1 / 10"
proof -
  have a: "live weeks_heap 0" by (simp add: live_def weeks_heap_def)
  have e: "length weeks_heap = 1" by (simp add: weeks_heap_def)
  have f: "Values weeks_heap 0 = [35, 36, 37, 38, 39]" by (simp add: Values_def weeks_heap_def)
  have g: "Prob weeks_heap 0 35 = 1 / 10" by (simp add: Prob_def weeks_heap_def)
  note t = Copy_independent [OF a, of "''copy''" 35 35 "\<lambda>x. x < 38" None]
  from t have "fst (Copy weeks_heap 0 ''copy'') = length weeks_heap"
    by blast
  then have t1: "fst (Copy weeks_heap 0 ''copy'') = 1"
    by (simp only: e)
  from t have "Values (Remove (snd (Copy weeks_heap 0 ''copy''))
      (fst (Copy weeks_heap 0 ''copy'')) 35) 0 = Values weeks_heap 0"
    by blast
  then have t2: "Values (Remove (snd (Copy weeks_heap 0 ''copy''))
      (fst (Copy weeks_heap 0 ''copy'')) 35) 0 = [35, 36, 37, 38, 39]"
    by (simp only: f)
  from t have "Values (snd (ConditionPmf weeks_heap 0 (\<lambda>x. x < 38) None)) 0 =
      Values weeks_heap 0"
    by blast
  then have t3: "Values (snd (ConditionPmf weeks_heap 0 (\<lambda>x. x < 38) None)) 0 =
      [35, 36, 37, 38, 39]"
    by (simp only: f)
  from t have "Prob (snd (ConditionPmf weeks_heap 0 (\<lambda>x. x < 38) None)) 0 35 =
      Prob weeks_heap 0 35"
    by blast
  then have t4: "Prob (snd (ConditionPmf weeks_heap 0 (\<lambda>x. x < 38) None)) 0 35 = 1 / 10"
    by (simp only: g)
  show ?thesis
    by (intro conjI a t1 t2 t3 t4)
qed

text \<open>
  C9.  For every Distribution and every value that is not in its mapping,
  \<^verbatim>\<open>Prob\<close> returns 0; \<^verbatim>\<open>Prob\<close> has no error result at all.
\<close>

theorem Prob_absent:
  assumes "v \<notin> set (Values h r)"
  shows "Prob h r v = 0"
proof -
  from assms have "map_of (dist_mapping (h ! r)) v = None"
    by (simp add: Values_def map_of_eq_None_iff)
  then show ?thesis by (simp add: Prob_def)
qed

theorem Prob_absent_witness:
  "40 \<notin> set (Values weeks_heap 0) \<and> Prob weeks_heap 0 40 = 0"
proof -
  have a: "40 \<notin> set (Values weeks_heap 0)" by (simp add: Values_def weeks_heap_def)
  show ?thesis using Prob_absent [OF a] a by simp
qed

text \<open>
  C10.  Whenever \<^verbatim>\<open>Render()\<close> succeeds and yields at least two x values,
  \<^verbatim>\<open>myplot.Hist\<close> raises \<^verbatim>\<open>NameError\<close> for the name \<^verbatim>\<open>bar_options\<close>, which is bound
  nowhere (the dict built just above is called \<^verbatim>\<open>options\<close>), and the figure is left
  as it was: no bar plot is produced.
\<close>

theorem Hist_raises_NameError:
  assumes "Render hist = Inr (xs, fs)" and "2 \<le> length xs"
  shows "Hist hist options fig = (Inl (NameError ''bar_options''), fig)"
proof -
  from assms(2) obtain w where w: "py_min (Diff xs) = Inr w"
    using py_min_nonempty [OF Diff_nonempty] by blast
  show ?thesis
    by (simp add: Hist_def assms(1) w bar_options_unbound)
qed

theorem Hist_raises_NameError_witness:
  "Render two_bars = Inr ([1, 2, 4], [3, 5, 2]) \<and> (2::nat) \<le> length [1, 2, 4 :: real] \<and>
   Hist two_bars [] [] = (Inl (NameError ''bar_options''), [])"
  using Hist_raises_NameError [of two_bars "[1, 2, 4]" "[3, 5, 2]" "[]" "[]"]
  by (simp add: two_bars_def)

end
